theory Spec2Isabelle
  imports Main "HOL-Library.Word"
begin

section \<open>Values of the embedded JavaScript\<close>

text \<open>
  The development embeds the class \<open>MessageEmbed\<close> of \<open>src/assets/Embeds.js\<close>.
  A JavaScript string is a sequence of UTF-16 code units: \<open>.length\<close> counts code units and
  \<open>.slice\<close> cuts between them, so a string is a list of 16-bit words. The wall is the single
  code unit U+2502 and the horizontal rule is made of U+2500. The string that the source
  names \<open>space\<close> (lines 164, 271 and 317) is not the ordinary space U+0020: it holds the one
  code unit U+2007, the figure space. The spaces inside \<open>" *"\<close> and \<open>"* "\<close> are U+0020.
  Numbers are modelled by their integer values; where the source can produce \<open>NaN\<close> (the
  boundary array of the wrapping loop, the time value of a date) the number type has \<open>NaN\<close>.
\<close>

type_synonym ustring = "16 word list"

definition ascii :: "string \<Rightarrow> ustring" where
  "ascii cs = map (\<lambda>c. of_nat (of_char c)) cs"

definition wall :: ustring where
  "wall = [0x2502]"

definition space :: ustring where
  \<comment> \<open>\<open>let space\<close> of the source: U+2007\<close>
  "space = [0x2007]"

definition dash :: ustring where
  "dash = [0x2500]"

definition newline :: ustring where
  "newline = [0x0A]"

definition star_open :: ustring where
  \<comment> \<open>the literal \<open>" *"\<close>\<close>
  "star_open = [0x20, 0x2A]"

definition star_close :: ustring where
  \<comment> \<open>the literal \<open>"* "\<close>\<close>
  "star_close = [0x2A, 0x20]"

definition fence :: ustring where
  \<comment> \<open>the literal of three backticks\<close>
  "fence = [0x60, 0x60, 0x60]"

datatype jsval = JUndefined | JNull | JNum int | JStr ustring

fun typeof :: "jsval \<Rightarrow> string" where
  "typeof JUndefined = ''undefined''"
| "typeof JNull = ''object''"
| "typeof (JNum n) = ''number''"
| "typeof (JStr s) = ''string''"

definition bool_strict_eq_string :: "bool \<Rightarrow> string \<Rightarrow> bool" where
  \<comment> \<open>\<open>===\<close> between a boolean and a string: the types differ, the result is false\<close>
  "bool_strict_eq_string b s = False"

datatype error = RangeError | TypeError

datatype outcome = ReturnsThis | ReturnsUndefined | Throws error

section \<open>The embed\<close>

record sizing =
  char :: "int option"
  line :: "ustring option"

datatype pxval = PxNull | PxNum int | PxObj sizing

text \<open>
  A number that may be \<open>NaN\<close>: the time value of a date, and the elements of the boundary
  array of the wrapping loop.
\<close>

datatype jsnum = Fin int | NaN

datatype tsval = TsNull | TsNum jsnum | TsStr ustring

record EmbedField =
  field_name :: jsval
  field_value :: jsval

text \<open>The record package reserves the name \<open>fields\<close>; the source's field \<open>fields\<close> is \<open>embed_fields\<close>.\<close>

record MessageEmbed =
  px :: pxval
  title :: "ustring option"
  description :: "ustring option"
  timestamp :: tsval
  embed_fields :: "EmbedField list"
  footer :: "ustring option"

section \<open>sizeEmbed\<close>

text \<open>
  Lines 103-132. The first test is \<open>!typeof px === "number" && px === undefined\<close>: the
  negation applies to the string \<open>typeof px\<close>, which is never empty, and the boolean it gives is
  compared with a string. The loop of lines 119-121 appends one dash per iteration.
  A method returns a pair: how the call ended and the embed as the call left it, so a
  mutation made before a throw stays visible.
\<close>

function line_loop :: "int \<Rightarrow> int \<Rightarrow> ustring \<Rightarrow> ustring" where
  "line_loop fixmath i line_convert =
     (if i < fixmath then line_loop fixmath (i + 1) (line_convert @ dash) else line_convert)"
  by pat_completeness auto
termination
  by (relation "measure (\<lambda>(fixmath, i, line_convert). nat (fixmath - i))") auto

declare line_loop.simps [simp del]

definition sizeEmbed :: "jsval \<Rightarrow> MessageEmbed \<Rightarrow> outcome \<times> MessageEmbed" where
  "sizeEmbed px_arg this =
     (if bool_strict_eq_string (typeof px_arg = []) ''number'' \<and> px_arg = JUndefined
      then (ReturnsThis, this\<lparr>px := PxObj \<lparr>char = None, line = None\<rparr>\<rparr>)
      else (case px_arg of
              JNum n \<Rightarrow>
                (if 2 < n \<and> n < 47
                 then (let mathnum = n - 4;
                           fixmath = \<bar>mathnum\<bar>;
                           line_convert = line_loop fixmath 0 []
                       in (ReturnsThis,
                           this\<lparr>px := PxObj \<lparr>char = Some n, line = Some line_convert\<rparr>\<rparr>))
                 else (Throws RangeError, this))
            | _ \<Rightarrow> (ReturnsUndefined, this)))"

section \<open>setFooter\<close>

definition setFooter :: "jsval \<Rightarrow> MessageEmbed \<Rightarrow> outcome \<times> MessageEmbed" where
  "setFooter footer_arg this =
     (case footer_arg of
        JStr f \<Rightarrow>
          (let lenstr = int (length f)
           in if lenstr > 20 then (Throws RangeError, this)
              else (ReturnsThis, this\<lparr>footer := Some (wall @ space @ fence @ f @ fence)\<rparr>))
      | _ \<Rightarrow> (Throws TypeError, this))"

section \<open>The wrapping loops of setTitle and setDescription\<close>

text \<open>
  Lines 162-168 and 315-321: the width in effect. \<open>size_embed.char\<close> is undefined on a
  number, and \<open>??\<close> replaces null and undefined by the default.
\<close>

definition effective_max :: "pxval \<Rightarrow> int" where
  "effective_max size_embed =
     (let maxw = 28
      in case size_embed of
           PxNull \<Rightarrow> maxw
         | PxNum n \<Rightarrow> maxw
         | PxObj r \<Rightarrow> (case char r of None \<Rightarrow> maxw | Some c \<Rightarrow> c))"

text \<open>
  Array elements of \<open>arr_parts\<close> are numbers, possibly \<open>NaN\<close>; a read outside the array
  gives undefined (\<open>None\<close>). Arithmetic with undefined or \<open>NaN\<close> gives \<open>NaN\<close>.
\<close>

definition nth_js :: "'a list \<Rightarrow> int \<Rightarrow> 'a option" where
  "nth_js xs k = (if 0 \<le> k \<and> k < int (length xs) then Some (xs ! nat k) else None)"

fun num_sub :: "jsnum \<Rightarrow> jsnum option \<Rightarrow> jsnum" where
  "num_sub (Fin a) (Some (Fin b)) = Fin (a - b)"
| "num_sub a b = NaN"

fun num_add :: "jsnum \<Rightarrow> jsnum option \<Rightarrow> jsnum" where
  "num_add (Fin a) (Some (Fin b)) = Fin (a + b)"
| "num_add a b = NaN"

text \<open>
  \<open>String.prototype.slice\<close>: an undefined start and \<open>NaN\<close> count as 0, an undefined end as
  the length; a negative index counts from the end; both are clamped to the string.
\<close>

definition to_integer :: "jsnum \<Rightarrow> int" where
  "to_integer x = (case x of Fin k \<Rightarrow> k | NaN \<Rightarrow> 0)"

definition slice :: "ustring \<Rightarrow> jsnum option \<Rightarrow> jsnum option \<Rightarrow> ustring" where
  "slice s start fin =
     (let len = int (length s);
          intStart = (case start of None \<Rightarrow> 0 | Some x \<Rightarrow> to_integer x);
          frm = (if intStart < 0 then max (len + intStart) 0 else min intStart len);
          intEnd = (case fin of None \<Rightarrow> len | Some x \<Rightarrow> to_integer x);
          upto = (if intEnd < 0 then max (len + intEnd) 0 else min intEnd len)
      in if frm \<ge> upto then [] else take (nat (upto - frm)) (drop (nat frm) s))"

text \<open>
  Lines 186-203 and 334-351: the loop that collects the boundaries. The state is the
  variables the loop assigns.
\<close>

record parts_state =
  parts :: int
  parts_count :: int
  parts_count_loop :: int
  help_loop :: bool
  final_count :: jsnum
  arr_parts :: "jsnum list"

definition parts_step :: "int \<Rightarrow> int \<Rightarrow> int \<Rightarrow> parts_state \<Rightarrow> parts_state" where
  "parts_step maxw lenstr i st =
     (let st1 = (if i = parts st
                 then st\<lparr>arr_parts := arr_parts st @ [Fin i],
                         parts_count := parts_count st + 1,
                         parts_count_loop := parts_count_loop st + 1,
                         parts := parts st + maxw\<rparr>
                 else st)
      in if i = lenstr
         then (let lastElement = nth_js (arr_parts st1) (int (length (arr_parts st1)) - 1);
                   fc = num_sub (Fin i) lastElement;
                   fc = num_add fc lastElement
               in st1\<lparr>help_loop := True, final_count := fc,
                       arr_parts := arr_parts st1 @ [fc]\<rparr>)
         else st1)"

function parts_loop :: "int \<Rightarrow> int \<Rightarrow> int \<Rightarrow> int \<Rightarrow> parts_state \<Rightarrow> parts_state" where
  "parts_loop maxw lenstr o_bound i st =
     (if i < o_bound then parts_loop maxw lenstr o_bound (i + 1) (parts_step maxw lenstr i st)
      else st)"
  by pat_completeness auto
termination
  by (relation "measure (\<lambda>(maxw, lenstr, o_bound, i, st). nat (o_bound - i))") auto

declare parts_loop.simps [simp del]

definition collect_parts :: "int \<Rightarrow> int \<Rightarrow> parts_state" where
  "collect_parts maxw lenstr =
     (let o_bound = lenstr + 1;
          st = parts_loop maxw lenstr o_bound 0
                 \<lparr>parts = maxw, parts_count = 0, parts_count_loop = 0, help_loop = False,
                  final_count = Fin 0, arr_parts = []\<rparr>
      in if help_loop st then st\<lparr>parts_count_loop := parts_count_loop st + 1\<rparr> else st)"

text \<open>
  Lines 205-224 and 353-372: the loop that cuts the slices. The two methods differ only in
  what they put around a slice, which is the parameter \<open>deco\<close>. The branch of the last
  index ends with \<open>break\<close>.
\<close>

function slices_loop ::
  "(ustring \<Rightarrow> ustring) \<Rightarrow> int \<Rightarrow> ustring \<Rightarrow> jsnum list \<Rightarrow> int \<Rightarrow> int \<Rightarrow> int \<Rightarrow> int \<Rightarrow> int
     \<Rightarrow> ustring list \<Rightarrow> ustring list" where
  "slices_loop deco maxw text ap pcl see_final i liceit liceitagain arr =
     (if i < pcl
      then (if i = see_final
            then (let neednum = i - 1;
                      fix_another_last = nth_js ap neednum;
                      fix_last = nth_js ap i;
                      maketheslicefix = slice text fix_another_last fix_last
                  in arr @ [deco maketheslicefix])
            else (let maketheslice = slice text (Some (Fin liceit)) (Some (Fin liceitagain))
                  in slices_loop deco maxw text ap pcl see_final (i + 1)
                       (liceit + maxw) (liceitagain + maxw) (arr @ [deco maketheslice])))
      else arr)"
  by pat_completeness auto
termination
  by (relation "measure (\<lambda>(deco, maxw, text, ap, pcl, see_final, i, r). nat (pcl - i))") auto

declare slices_loop.simps [simp del]

definition wrap_lines :: "(ustring \<Rightarrow> ustring) \<Rightarrow> int \<Rightarrow> ustring \<Rightarrow> ustring list" where
  "wrap_lines deco maxw text =
     (let lenstr = int (length text);
          st = collect_parts maxw lenstr;
          see_final = parts_count_loop st - 1
      in slices_loop deco maxw text (arr_parts st) (parts_count_loop st) see_final 0 0 maxw [])"

text \<open>Lines 225-233 and 373-381: the loop that joins the lines with newlines.\<close>

function join_loop :: "ustring list \<Rightarrow> int \<Rightarrow> int \<Rightarrow> ustring \<Rightarrow> ustring" where
  "join_loop arr see_final_arr i acc =
     (if i < int (length arr)
      then (if i = see_final_arr then acc @ arr ! nat i
            else join_loop arr see_final_arr (i + 1) (acc @ arr ! nat i @ newline))
      else acc)"
  by pat_completeness auto
termination
  by (relation "measure (\<lambda>(arr, see_final_arr, i, acc). nat (int (length arr) - i))") auto

declare join_loop.simps [simp del]

definition join_lines :: "ustring list \<Rightarrow> ustring" where
  "join_lines arr = join_loop arr (int (length arr) - 1) 0 []"

section \<open>setTitle and setDescription\<close>

definition title_deco :: "ustring \<Rightarrow> ustring" where
  "title_deco chunk = wall @ space @ star_open @ chunk @ star_close"

definition desc_deco :: "ustring \<Rightarrow> ustring" where
  "desc_deco chunk = wall @ space @ chunk"

text \<open>
  The text a method stores, for a string argument and the width in effect. The padding that
  lines 236-252 and 384-400 compute in \<open>spacessums\<close> is never used, both branches on
  \<open>getspaces\<close> give the same text; where neither length test holds the initial empty string
  stays.
\<close>

definition title_text :: "int \<Rightarrow> ustring \<Rightarrow> ustring" where
  "title_text maxw t =
     (let moremax = maxw + 1; lenstr = int (length t)
      in if lenstr > maxw then join_lines (wrap_lines title_deco maxw t)
         else if lenstr < moremax
              then (let getspaces = maxw - lenstr
                    in if getspaces = 0 then wall @ space @ star_open @ t @ star_close
                       else wall @ space @ star_open @ t @ star_close)
              else [])"

definition description_text :: "int \<Rightarrow> ustring \<Rightarrow> ustring" where
  "description_text maxw d =
     (let moremax = maxw + 1; lenstr = int (length d)
      in if lenstr > maxw then newline @ join_lines (wrap_lines desc_deco maxw d) @ newline
         else if lenstr < moremax
              then (let getspaces = maxw - lenstr
                    in if getspaces = 0 then newline @ (wall @ space @ d) @ newline
                       else newline @ (wall @ space @ d) @ newline)
              else [])"

text \<open>
  Both methods start with \<open>this.sizeEmbed()\<close>, whose result is dropped; had it thrown, the
  method would end there.
\<close>

definition setTitle :: "jsval \<Rightarrow> MessageEmbed \<Rightarrow> outcome \<times> MessageEmbed" where
  "setTitle title_arg this0 =
     (case sizeEmbed JUndefined this0 of
        (Throws e, this) \<Rightarrow> (Throws e, this)
      | (_, this) \<Rightarrow>
          (let maxw = effective_max (px this)
           in case title_arg of
                JStr t \<Rightarrow> (ReturnsThis, this\<lparr>title := Some (title_text maxw t)\<rparr>)
              | _ \<Rightarrow> (Throws TypeError, this)))"

definition setDescription :: "jsval \<Rightarrow> MessageEmbed \<Rightarrow> outcome \<times> MessageEmbed" where
  "setDescription description_arg this0 =
     (case sizeEmbed JUndefined this0 of
        (Throws e, this) \<Rightarrow> (Throws e, this)
      | (_, this) \<Rightarrow>
          (let maxw = effective_max (px this)
           in case description_arg of
                JStr d \<Rightarrow>
                  (let lenstr = int (length d)
                   in if lenstr < 1 then (Throws TypeError, this)
                      else (ReturnsThis, this\<lparr>description := Some (description_text maxw d)\<rparr>))
              | _ \<Rightarrow> (Throws TypeError, this)))"

section \<open>Fields\<close>

text \<open>
  \<open>Util\<close> is required from \<open>./Util\<close>, which is not part of the sources at hand: its two
  functions are parameters. \<open>verifyString\<close> receives the value, the error class, the message
  and the flag for empty strings, and either throws or returns.
  An argument of \<open>addFields\<close> is an object with the properties \<open>name\<close> and \<open>value\<close>, an
  array of arguments, or null or undefined.
\<close>

datatype field_data = FieldObj jsval jsval | FieldArr "field_data list" | FieldNullish

record util =
  verifyString :: "jsval \<Rightarrow> error \<Rightarrow> string \<Rightarrow> bool \<Rightarrow> error + jsval"
  cloneObject :: "field_data \<Rightarrow> EmbedField"

fun flat :: "nat \<Rightarrow> field_data list \<Rightarrow> field_data list" where
  "flat 0 xs = xs"
| "flat (Suc depth) xs =
     concat (map (\<lambda>x. case x of FieldArr ys \<Rightarrow> flat depth ys | _ \<Rightarrow> [x]) xs)"

definition normalizeField :: "util \<Rightarrow> jsval \<Rightarrow> jsval \<Rightarrow> error + EmbedField" where
  "normalizeField u name val =
     (case verifyString u name RangeError ''EMBED_FIELD_NAME'' False of
        Inl e \<Rightarrow> Inl e
      | Inr n \<Rightarrow>
          (case verifyString u val RangeError ''EMBED_FIELD_VALUE'' False of
             Inl e \<Rightarrow> Inl e
           | Inr v \<Rightarrow> Inr \<lparr>field_name = n, field_value = v\<rparr>))"

text \<open>
  The callback of \<open>map\<close> reads \<open>field.name\<close> and \<open>field.value\<close>: on null or undefined the
  read throws a TypeError, on an array left by \<open>flat(2)\<close> both are undefined.
\<close>

fun map_fields :: "util \<Rightarrow> field_data list \<Rightarrow> error + EmbedField list" where
  "map_fields u [] = Inr []"
| "map_fields u (x # xs) =
     (case (case x of
              FieldObj name val \<Rightarrow> normalizeField u name val
            | FieldArr ys \<Rightarrow> normalizeField u JUndefined JUndefined
            | FieldNullish \<Rightarrow> Inl TypeError) of
        Inl e \<Rightarrow> Inl e
      | Inr f \<Rightarrow> (case map_fields u xs of Inl e \<Rightarrow> Inl e | Inr fs \<Rightarrow> Inr (f # fs)))"

definition normalizeFields :: "util \<Rightarrow> field_data list \<Rightarrow> error + EmbedField list" where
  \<comment> \<open>the argument is the array of the rest parameters\<close>
  "normalizeFields u rest = map_fields u (flat 2 rest)"

text \<open>
  Lines 149-152: the argument of \<open>push\<close> is evaluated before \<open>push\<close> is called.
\<close>

definition addFields :: "util \<Rightarrow> field_data list \<Rightarrow> MessageEmbed \<Rightarrow> outcome \<times> MessageEmbed" where
  "addFields u args this =
     (case normalizeFields u [FieldArr args] of
        Inl e \<Rightarrow> (Throws e, this)
      | Inr fs \<Rightarrow> (ReturnsThis, this\<lparr>embed_fields := embed_fields this @ fs\<rparr>))"

definition addField :: "util \<Rightarrow> jsval \<Rightarrow> jsval \<Rightarrow> MessageEmbed \<Rightarrow> outcome \<times> MessageEmbed" where
  "addField u name val this = addFields u [FieldObj name val] this"

section \<open>setTimestamp\<close>

text \<open>
  Lines 294-305. The date read by \<open>new Date()\<close> is a parameter. A number concatenated with
  a string is written in decimal.
\<close>

record clock =
  getMonth :: int
  getDate :: int
  getFullYear :: int

fun digits :: "nat \<Rightarrow> ustring" where
  "digits n = (if n < 10 then [of_nat (48 + n)]
               else digits (n div 10) @ [of_nat (48 + n mod 10)])"

declare digits.simps [simp del]

definition number_to_string :: "int \<Rightarrow> ustring" where
  "number_to_string k = (if k < 0 then 0x2D # digits (nat (- k)) else digits (nat k))"

definition setTimestamp :: "clock \<Rightarrow> jsval \<Rightarrow> MessageEmbed \<Rightarrow> outcome \<times> MessageEmbed" where
  "setTimestamp today timestamp_arg this =
     (let timestap_embed =
            (if timestamp_arg = JUndefined
             then (let date = number_to_string (getMonth today) @ [0x2F]
                                @ number_to_string (getDate today + 1) @ [0x2F]
                                @ number_to_string (getFullYear today)
                   in [0x20, 0x20, 0x2A, 0x2022, 0x2A, 0x20, 0x20] @ date)
             else [])
      in (ReturnsThis, this\<lparr>timestamp := TsStr timestap_embed\<rparr>))"

section \<open>The constructor\<close>

text \<open>
  Lines 16-67. A key of the data object that is absent or undefined is \<open>None\<close>; for
  \<open>timestamp\<close>, which is tested with \<open>in\<close>, \<open>None\<close> is the absent key only. The time value of
  \<open>new Date(data.timestamp)\<close> is computed by the parameter \<open>getTime\<close>.
\<close>

record embed_data =
  data_px :: "pxval option"
  data_title :: "ustring option"
  data_description :: "ustring option"
  data_timestamp :: "jsval option"
  data_fields :: "field_data list option"
  data_footer :: "ustring option"

definition embed_setup ::
  "util \<Rightarrow> (jsval \<Rightarrow> jsnum) \<Rightarrow> embed_data \<Rightarrow> bool \<Rightarrow> error + MessageEmbed" where
  "embed_setup u getTime data skipValidation =
     (let this_px = (case data_px data of None \<Rightarrow> PxNull | Some v \<Rightarrow> v);
          this_title = data_title data;
          this_description = data_description data;
          this_timestamp = (case data_timestamp data of
                              Some v \<Rightarrow> TsNum (getTime v)
                            | None \<Rightarrow> TsNull);
          this_fields = (case data_fields data of
                           None \<Rightarrow> Inr []
                         | Some fs \<Rightarrow> (if skipValidation then Inr (map (cloneObject u) fs)
                                      else normalizeFields u [FieldArr fs]))
      in case this_fields of
           Inl e \<Rightarrow> Inl e
         | Inr fs \<Rightarrow> Inr \<lparr>px = this_px, title = this_title, description = this_description,
                          timestamp = this_timestamp, embed_fields = fs,
                          footer = data_footer data\<rparr>)"

section \<open>toJSON\<close>

text \<open>
  Lines 414-423. \<open>a && b\<close> is \<open>a\<close> when \<open>a\<close> is falsy and \<open>b\<close> otherwise; null, 0, \<open>NaN\<close> and
  the empty string are falsy. The date object is written as the value it was built from.
\<close>

fun truthy :: "tsval \<Rightarrow> bool" where
  "truthy TsNull = False"
| "truthy (TsNum (Fin k)) = (k \<noteq> 0)"
| "truthy (TsNum NaN) = False"
| "truthy (TsStr s) = (s \<noteq> [])"

datatype json_timestamp = Plain tsval | DateOf tsval

record APIEmbed =
  json_px :: pxval
  json_title :: "ustring option"
  json_description :: "ustring option"
  json_timestamp :: json_timestamp
  json_fields :: "EmbedField list"
  json_footer :: "ustring option"

definition toJSON :: "MessageEmbed \<Rightarrow> APIEmbed" where
  "toJSON this =
     \<lparr>json_px = px this,
      json_title = title this,
      json_description = description this,
      json_timestamp = (if truthy (timestamp this) then DateOf (timestamp this)
                        else Plain (timestamp this)),
      json_fields = embed_fields this,
      json_footer = footer this\<rparr>"

section \<open>Sequences of method calls\<close>

text \<open>
  A client calls the methods one after the other on the same embed; a call that throws
  leaves the embed as it was at the throw, and the client may go on.
\<close>

datatype call =
    CallSizeEmbed jsval
  | CallAddField jsval jsval
  | CallAddFields "field_data list"
  | CallSetDescription jsval
  | CallSetFooter jsval
  | CallSetTimestamp clock jsval
  | CallSetTitle jsval

fun exec :: "util \<Rightarrow> call \<Rightarrow> MessageEmbed \<Rightarrow> outcome \<times> MessageEmbed" where
  "exec u (CallSizeEmbed v) this = sizeEmbed v this"
| "exec u (CallAddField n v) this = addField u n v this"
| "exec u (CallAddFields fs) this = addFields u fs this"
| "exec u (CallSetDescription v) this = setDescription v this"
| "exec u (CallSetFooter v) this = setFooter v this"
| "exec u (CallSetTimestamp today v) this = setTimestamp today v this"
| "exec u (CallSetTitle v) this = setTitle v this"

fun run :: "util \<Rightarrow> call list \<Rightarrow> MessageEmbed \<Rightarrow> MessageEmbed" where
  "run u [] this = this"
| "run u (c # cs) this = run u cs (snd (exec u c this))"

fun resizes :: "call \<Rightarrow> bool" where
  \<comment> \<open>the calls of \<open>sizeEmbed\<close> that succeed: a number greater than 2 and less than 47\<close>
  "resizes (CallSizeEmbed (JNum n)) = (2 < n \<and> n < 47)"
| "resizes c = False"

section \<open>The embed without data, and an instance of Util\<close>

text \<open>
  \<open>new MessageEmbed()\<close> receives the empty object; the embed it builds is \<open>unset_embed\<close>
  (lemma \<open>embed_setup_empty\<close>).
\<close>

definition empty_data :: embed_data where
  "empty_data = \<lparr>data_px = None, data_title = None, data_description = None,
                  data_timestamp = None, data_fields = None, data_footer = None\<rparr>"

definition unset_embed :: MessageEmbed where
  "unset_embed = \<lparr>px = PxNull, title = None, description = None, timestamp = TsNull,
                   embed_fields = [], footer = None\<rparr>"

fun is_throw :: "outcome \<Rightarrow> bool" where
  "is_throw (Throws e) = True"
| "is_throw r = False"

text \<open>
  The theorems hold for every \<open>Util\<close>. Their closed instances need one: here \<open>verifyString\<close>
  throws the given error on a value that is not a string and, unless empty strings are
  allowed, on the empty string, and \<open>cloneObject\<close> copies the two properties.
\<close>

definition sample_util :: util where
  "sample_util =
     \<lparr>verifyString = (\<lambda>d e msg allowEmpty.
                         case d of
                           JStr s \<Rightarrow> (if \<not> allowEmpty \<and> s = [] then Inl e else Inr d)
                         | _ \<Rightarrow> Inl e),
      cloneObject = (\<lambda>f. case f of
                             FieldObj n v \<Rightarrow> \<lparr>field_name = n, field_value = v\<rparr>
                           | _ \<Rightarrow> \<lparr>field_name = JUndefined, field_value = JUndefined\<rparr>)\<rparr>"

section \<open>Closed forms of the loops\<close>

text \<open>
  The boundary loop, when the width is positive and not greater than the length, leaves
  the multiples of the width up to the length, followed by the length itself. \<open>pst\<close> is the
  state of the loop after \<open>k\<close> multiples have been passed.
\<close>

definition multiples :: "int \<Rightarrow> nat \<Rightarrow> jsnum list" where
  "multiples maxw k = map (\<lambda>j. Fin (maxw * int j)) [1..<Suc k]"

definition pst :: "int \<Rightarrow> nat \<Rightarrow> parts_state" where
  "pst maxw k = \<lparr>parts = maxw * (int k + 1), parts_count = int k, parts_count_loop = int k,
     help_loop = False, final_count = Fin 0, arr_parts = multiples maxw k\<rparr>"

definition final_parts :: "int \<Rightarrow> int \<Rightarrow> nat \<Rightarrow> parts_state" where
  "final_parts maxw lenstr k = (pst maxw k)\<lparr>help_loop := True, final_count := Fin lenstr,
       arr_parts := multiples maxw k @ [Fin lenstr]\<rparr>"

text \<open>
  The segments of a text: slices of the width, then what is left after the last full slice
  (empty when the width divides the length); a text that fits is its only segment.
\<close>

definition full_chunks :: "nat \<Rightarrow> ustring \<Rightarrow> nat \<Rightarrow> nat \<Rightarrow> ustring list" where
  "full_chunks m t i K = map (\<lambda>j. take m (drop (m * j) t)) [i..<K]"

definition chunks :: "nat \<Rightarrow> ustring \<Rightarrow> ustring list" where
  "chunks m t = full_chunks m t 0 (length t div m) @ [drop (m * (length t div m)) t]"

definition segments :: "nat \<Rightarrow> ustring \<Rightarrow> ustring list" where
  "segments m t = (if m < length t then chunks m t else [t])"

text \<open>
  What the inverse needs of a list of segments: every segment but the last has the width,
  and the last is not longer.
\<close>

definition segment_shape :: "nat \<Rightarrow> ustring list \<Rightarrow> bool" where
  "segment_shape m cs \<longleftrightarrow> cs \<noteq> [] \<and> (\<forall>c \<in> set (butlast cs). length c = m) \<and> length (last cs) \<le> m"

text \<open>Lines joined with one newline between two of them.\<close>

fun join_spec :: "ustring list \<Rightarrow> ustring" where
  "join_spec [] = []"
| "join_spec [x] = x"
| "join_spec (x # y # ys) = x @ newline @ join_spec (y # ys)"

section \<open>Removing the decoration\<close>

text \<open>
  The inverse that the specification speaks of: from every line remove the wall, the figure
  space and the decoration, drop the newline that separates two lines, and concatenate what is
  left. A line holds as many characters of the text as the width, the last line what
  remains, so the reader cuts by the width; the text itself may contain newlines. The
  result is \<open>None\<close> when a decoration is not where it has to be. The decoration is written
  here by its code units, as a reader of the stored text sees it: the wall U+2502, the
  figure space U+2007, \<open>" *"\<close> as U+0020 U+002A, \<open>"* "\<close> as U+002A U+0020, the newline
  U+000A.
\<close>

fun dewrap_title :: "nat \<Rightarrow> ustring \<Rightarrow> ustring option" where
  "dewrap_title m out =
     (if take 4 out \<noteq> [0x2502, 0x2007, 0x20, 0x2A] then None
      else (let body = drop 4 out
            in if length body \<le> m + 2
               then (if 2 \<le> length body \<and> drop (length body - 2) body = [0x2A, 0x20]
                     then Some (take (length body - 2) body) else None)
               else if take 3 (drop m body) \<noteq> [0x2A, 0x20, 0x0A] then None
               else map_option (\<lambda>rest. take m body @ rest)
                      (dewrap_title m (drop (m + 3) body))))"

fun dewrap_description_lines :: "nat \<Rightarrow> ustring \<Rightarrow> ustring option" where
  "dewrap_description_lines m out =
     (if take 2 out \<noteq> [0x2502, 0x2007] then None
      else (let body = drop 2 out
            in if length body \<le> m then Some body
               else if take 1 (drop m body) \<noteq> [0x0A] then None
               else map_option (\<lambda>rest. take m body @ rest)
                      (dewrap_description_lines m (drop (m + 1) body))))"

definition dewrap_description :: "nat \<Rightarrow> ustring \<Rightarrow> ustring option" where
  "dewrap_description m out =
     (if length out < 2 \<or> take 1 out \<noteq> [0x0A] \<or> drop (length out - 1) out \<noteq> [0x0A] then None
      else dewrap_description_lines m (take (length out - 2) (drop 1 out)))"

declare dewrap_title.simps [simp del] dewrap_description_lines.simps [simp del]

section \<open>The boundary loop\<close>

lemma multiples_Suc: "multiples maxw (Suc k) = multiples maxw k @ [Fin (maxw * (int k + 1))]"
  by (simp add: multiples_def algebra_simps)

lemma length_multiples: "length (multiples maxw k) = k"
  by (simp add: multiples_def)

lemma last_multiples: "0 < k \<Longrightarrow> nth_js (multiples maxw k) (int k - 1) = Some (Fin (maxw * int k))"
  by (cases k) (simp_all add: multiples_Suc nth_js_def length_multiples nth_append)

lemma parts_step_hit:
  "i < lenstr \<Longrightarrow> i = maxw * (int k + 1) \<Longrightarrow> parts_step maxw lenstr i (pst maxw k) = pst maxw (Suc k)"
  by (simp add: parts_step_def pst_def multiples_Suc algebra_simps)

lemma parts_step_miss:
  "i < lenstr \<Longrightarrow> i \<noteq> maxw * (int k + 1) \<Longrightarrow> parts_step maxw lenstr i (pst maxw k) = pst maxw k"
  by (simp add: parts_step_def pst_def)

lemma parts_step_last_hit:
  "lenstr = maxw * (int k + 1) \<Longrightarrow>
   parts_step maxw lenstr lenstr (pst maxw k) = final_parts maxw lenstr (Suc k)"
  by (simp add: parts_step_def pst_def final_parts_def multiples_Suc nth_js_def
      length_multiples nth_append Let_def algebra_simps)

lemma parts_step_last_miss:
  assumes "lenstr \<noteq> maxw * (int k + 1)" "0 < k"
  shows "parts_step maxw lenstr lenstr (pst maxw k) = final_parts maxw lenstr k"
proof -
  have "nth_js (arr_parts (pst maxw k)) (int (length (arr_parts (pst maxw k))) - 1)
        = Some (Fin (maxw * int k))"
    using last_multiples [OF assms(2)] by (simp add: pst_def length_multiples)
  then show ?thesis using assms(1)
    by (simp add: parts_step_def final_parts_def Let_def) (simp add: pst_def)
qed

lemma parts_loop_run:
  assumes "1 \<le> maxw" "maxw \<le> lenstr"
  shows "i \<le> lenstr \<Longrightarrow> k = 0 \<or> maxw * int k < i \<Longrightarrow> i \<le> maxw * (int k + 1) \<Longrightarrow>
         parts_loop maxw lenstr (lenstr + 1) i (pst maxw k)
           = final_parts maxw lenstr (nat (lenstr div maxw))"
proof (induction "nat (lenstr - i)" arbitrary: i k)
  case 0
  then have il: "i = lenstr" by simp
  show ?case
  proof (cases "lenstr = maxw * (int k + 1)")
    case True
    then have "lenstr div maxw = int k + 1" using assms(1) by simp
    then have "nat (lenstr div maxw) = Suc k" by simp
    then show ?thesis using il parts_step_last_hit [OF True]
      by (simp add: parts_loop.simps [of _ _ _ lenstr] parts_loop.simps [of _ _ _ "lenstr + 1"])
  next
    case False
    with 0 il have lt: "lenstr < maxw * (int k + 1)" by simp
    have kpos: "0 < k"
    proof (rule ccontr)
      assume "\<not> 0 < k"
      then show False using lt assms by simp
    qed
    then have "maxw * int k \<le> lenstr" using 0 il by auto
    then have "lenstr div maxw = int k" using lt assms(1)
      by (intro int_div_pos_eq [where r = "lenstr - maxw * int k"]) (auto simp: algebra_simps)
    then have "nat (lenstr div maxw) = k" by simp
    then show ?thesis using il parts_step_last_miss [OF False kpos]
      by (simp add: parts_loop.simps [of _ _ _ lenstr] parts_loop.simps [of _ _ _ "lenstr + 1"])
  qed
next
  case (Suc n)
  then have lt: "i < lenstr" by simp
  show ?case
  proof (cases "i = maxw * (int k + 1)")
    case True
    have "parts_loop maxw lenstr (lenstr + 1) (i + 1) (pst maxw (Suc k))
          = final_parts maxw lenstr (nat (lenstr div maxw))"
      using Suc.hyps(2) lt True assms(1) by (intro Suc.hyps(1)) (auto simp: algebra_simps)
    then show ?thesis using lt parts_step_hit [OF lt True]
      by (subst parts_loop.simps) simp
  next
    case False
    have "parts_loop maxw lenstr (lenstr + 1) (i + 1) (pst maxw k)
          = final_parts maxw lenstr (nat (lenstr div maxw))"
      using Suc.hyps(2) Suc.prems lt False by (intro Suc.hyps(1)) auto
    then show ?thesis using lt parts_step_miss [OF lt False]
      by (subst parts_loop.simps) simp
  qed
qed

lemma collect_parts_eq:
  assumes "1 \<le> maxw" "maxw \<le> lenstr"
  shows "arr_parts (collect_parts maxw lenstr)
           = multiples maxw (nat (lenstr div maxw)) @ [Fin lenstr]"
    and "parts_count_loop (collect_parts maxw lenstr) = lenstr div maxw + 1"
proof -
  have init: "\<lparr>parts = maxw, parts_count = 0, parts_count_loop = 0, help_loop = False,
                final_count = Fin 0, arr_parts = []\<rparr> = pst maxw 0"
    by (simp add: pst_def multiples_def)
  have run: "parts_loop maxw lenstr (lenstr + 1) 0 (pst maxw 0)
          = final_parts maxw lenstr (nat (lenstr div maxw))"
    using assms by (intro parts_loop_run) auto
  have nn: "0 \<le> lenstr div maxw" using assms by (simp add: pos_imp_zdiv_nonneg_iff)
  show "arr_parts (collect_parts maxw lenstr)
           = multiples maxw (nat (lenstr div maxw)) @ [Fin lenstr]"
    by (simp add: collect_parts_def init run Let_def) (simp add: final_parts_def)
  show "parts_count_loop (collect_parts maxw lenstr) = lenstr div maxw + 1"
    using nn by (simp add: collect_parts_def init run Let_def) (simp add: final_parts_def pst_def)
qed

section \<open>The slicing loop and the join\<close>

lemma slice_take_drop:
  assumes "0 \<le> a" "a \<le> b" "b \<le> int (length t)"
  shows "slice t (Some (Fin a)) (Some (Fin b)) = take (nat (b - a)) (drop (nat a) t)"
  using assms by (auto simp: slice_def to_integer_def Let_def min_def)

lemma nth_js_boundaries:
  assumes "0 < K"
  shows "nth_js (multiples maxw K @ [Fin lenstr]) (int K - 1) = Some (Fin (maxw * int K))"
    and "nth_js (multiples maxw K @ [Fin lenstr]) (int K) = Some (Fin lenstr)"
proof -
  show "nth_js (multiples maxw K @ [Fin lenstr]) (int K - 1) = Some (Fin (maxw * int K))"
    using last_multiples [OF assms, of maxw] assms
    by (auto simp: nth_js_def length_multiples nth_append split: if_splits)
  show "nth_js (multiples maxw K @ [Fin lenstr]) (int K) = Some (Fin lenstr)"
    by (simp add: nth_js_def length_multiples nth_append)
qed

lemma slices_loop_run:
  assumes "1 \<le> maxw" "0 < K" "maxw * int K \<le> int (length t)"
  shows "i \<le> K \<Longrightarrow> ii = int i \<Longrightarrow> liceit = maxw * int i \<Longrightarrow> liceitagain = liceit + maxw \<Longrightarrow>
         slices_loop deco maxw t (multiples maxw K @ [Fin (int (length t))]) (int K + 1) (int K)
           ii liceit liceitagain arr
         = arr @ map deco (full_chunks (nat maxw) t i K) @ [deco (drop (nat maxw * K) t)]"
proof (induction "K - i" arbitrary: i ii liceit liceitagain arr)
  case 0
  then have iK: "ii = int K" "i = K" by simp_all
  have m: "nat (maxw * int K) = nat maxw * K"
    using assms(1) by (simp add: nat_mult_distrib)
  have n: "nat (int (length t) - maxw * int K) = length t - nat maxw * K"
    using assms(1) by (simp add: nat_diff_distrib' nat_mult_distrib)
  have "slice t (Some (Fin (maxw * int K))) (Some (Fin (int (length t)))) = drop (nat maxw * K) t"
    using assms by (subst slice_take_drop) (auto simp: m n)
  then show ?case using iK nth_js_boundaries [OF assms(2), of maxw "int (length t)"]
    by (subst slices_loop.simps) (simp add: full_chunks_def Let_def)
next
  case (Suc n)
  then have lt: "i < K" by simp
  have c: "ii < int K + 1" "ii \<noteq> int K" using lt Suc.prems by simp_all
  have le: "maxw * (int i + 1) \<le> int (length t)"
  proof -
    have "maxw * (int i + 1) \<le> maxw * int K" using lt assms(1) by (intro mult_left_mono) auto
    then show ?thesis using assms(3) by linarith
  qed
  have m: "nat (maxw * int i) = nat maxw * i"
    using assms(1) by (simp add: nat_mult_distrib)
  have "slice t (Some (Fin (maxw * int i))) (Some (Fin (maxw * int i + maxw)))
        = take (nat maxw) (drop (nat maxw * i) t)"
    using assms(1) le by (subst slice_take_drop) (auto simp: m algebra_simps)
  then have sl: "slice t (Some (Fin liceit)) (Some (Fin liceitagain))
        = take (nat maxw) (drop (nat maxw * i) t)"
    using Suc.prems by simp
  have step: "slices_loop deco maxw t (multiples maxw K @ [Fin (int (length t))]) (int K + 1) (int K)
           (ii + 1) (liceit + maxw) (liceitagain + maxw)
           (arr @ [deco (take (nat maxw) (drop (nat maxw * i) t))])
         = (arr @ [deco (take (nat maxw) (drop (nat maxw * i) t))])
             @ map deco (full_chunks (nat maxw) t (Suc i) K) @ [deco (drop (nat maxw * K) t)]"
    using Suc.hyps(2) Suc.prems lt by (intro Suc.hyps(1)) (auto simp: algebra_simps)
  have fc: "full_chunks (nat maxw) t i K
            = take (nat maxw) (drop (nat maxw * i) t) # full_chunks (nat maxw) t (Suc i) K"
    using lt by (simp add: full_chunks_def upt_conv_Cons)
  show ?case
    by (subst slices_loop.simps) (simp only: c if_True if_False Let_def sl step fc, simp)
qed

lemma join_loop_run:
  "i < length arr \<Longrightarrow>
   join_loop arr (int (length arr) - 1) (int i) acc = acc @ join_spec (drop i arr)"
proof (induction "length arr - i" arbitrary: i acc)
  case 0
  then show ?case by simp
next
  case (Suc n)
  show ?case
  proof (cases "Suc i = length arr")
    case True
    then have "drop i arr = [arr ! i]"
      by (metis Cons_nth_drop_Suc Suc.prems drop_all order_refl)
    then show ?thesis using True Suc.prems
      by (subst join_loop.simps) auto
  next
    case False
    then have lt: "Suc i < length arr" using Suc.prems by simp
    have d: "drop i arr = arr ! i # arr ! Suc i # drop (Suc (Suc i)) arr"
      using lt by (simp add: Cons_nth_drop_Suc Suc_lessD)
    have d2: "drop (Suc i) arr = arr ! Suc i # drop (Suc (Suc i)) arr"
      using lt by (simp add: Cons_nth_drop_Suc)
    have "join_loop arr (int (length arr) - 1) (int (Suc i)) (acc @ arr ! i @ newline)
          = (acc @ arr ! i @ newline) @ join_spec (drop (Suc i) arr)"
      using Suc.hyps(2) lt by (intro Suc.hyps(1)) auto
    then show ?thesis using lt False
      by (subst join_loop.simps) (auto simp: d d2 algebra_simps)
  qed
qed

lemma join_lines_eq: "arr \<noteq> [] \<Longrightarrow> join_lines arr = join_spec arr"
  using join_loop_run [of 0 arr "[]"] by (simp add: join_lines_def)

lemma concat_full_chunks: "concat (full_chunks m t 0 K) = take (m * K) t"
proof (induction K)
  case 0
  then show ?case by (simp add: full_chunks_def)
next
  case (Suc K)
  have "concat (full_chunks m t 0 (Suc K)) = concat (full_chunks m t 0 K) @ take m (drop (m * K) t)"
    by (simp add: full_chunks_def)
  moreover have "take (m * K + m) t = take (m * K) t @ take m (drop (m * K) t)"
    by (rule take_add)
  ultimately show ?case using Suc by (simp add: add.commute)
qed

lemma concat_chunks: "concat (chunks m t) = t"
  by (simp add: chunks_def concat_full_chunks)

lemma wrap_lines_eq:
  assumes "1 \<le> maxw" "maxw \<le> int (length t)"
  shows "wrap_lines deco maxw t = map deco (chunks (nat maxw) t)"
proof -
  define K where "K = nat (int (length t) div maxw)"
  have Kint: "int (length t) div maxw = int K"
    using assms by (simp add: K_def pos_imp_zdiv_nonneg_iff)
  have Knat: "K = length t div nat maxw"
    using assms(1) by (simp add: K_def nat_div_distrib)
  have Kpos: "0 < K"
    using assms by (simp add: K_def pos_imp_zdiv_pos_iff)
  have le: "maxw * int K \<le> int (length t)"
  proof -
    have "maxw * (int (length t) div maxw) \<le> int (length t)"
      using assms(1) mult_div_mod_eq [of maxw "int (length t)"]
        pos_mod_sign [of maxw "int (length t)"] by linarith
    then show ?thesis by (simp add: Kint)
  qed
  have run: "slices_loop deco maxw t (multiples maxw K @ [Fin (int (length t))]) (int K + 1) (int K)
           0 0 maxw []
         = [] @ map deco (full_chunks (nat maxw) t 0 K) @ [deco (drop (nat maxw * K) t)]"
    using assms(1) Kpos le by (intro slices_loop_run) auto
  show ?thesis
    using run collect_parts_eq [OF assms]
    by (simp add: wrap_lines_def Let_def Kint chunks_def Knat [symmetric] K_def [symmetric])
qed

section \<open>Wrapping and its inverse\<close>

lemma dewrap_title_join:
  "segment_shape m cs \<Longrightarrow> dewrap_title m (join_spec (map title_deco cs)) = Some (concat cs)"
proof (induction cs rule: join_spec.induct)
  case 1
  then show ?case by (simp add: segment_shape_def)
next
  case (2 c)
  then have "length c \<le> m" by (simp add: segment_shape_def)
  then show ?case
    by (subst dewrap_title.simps)
      (simp add: title_deco_def wall_def space_def star_open_def star_close_def)
next
  case (3 c c' cs)
  then have len: "length c = m" and sh: "segment_shape m (c' # cs)"
    by (simp_all add: segment_shape_def)
  have ih: "dewrap_title m (join_spec (map title_deco (c' # cs))) = Some (concat (c' # cs))"
    using 3 sh by simp
  show ?case
    apply (subst dewrap_title.simps)
    using len ih
    apply (simp add: title_deco_def wall_def space_def star_open_def star_close_def newline_def)
    done
qed

lemma dewrap_description_lines_join:
  "segment_shape m cs \<Longrightarrow>
   dewrap_description_lines m (join_spec (map desc_deco cs)) = Some (concat cs)"
proof (induction cs rule: join_spec.induct)
  case 1
  then show ?case by (simp add: segment_shape_def)
next
  case (2 c)
  then have "length c \<le> m" by (simp add: segment_shape_def)
  then show ?case
    by (subst dewrap_description_lines.simps)
      (simp add: desc_deco_def wall_def space_def)
next
  case (3 c c' cs)
  then have len: "length c = m" and sh: "segment_shape m (c' # cs)"
    by (simp_all add: segment_shape_def)
  have ih: "dewrap_description_lines m (join_spec (map desc_deco (c' # cs))) = Some (concat (c' # cs))"
    using 3 sh by simp
  show ?case
    apply (subst dewrap_description_lines.simps)
    using len ih
    apply (simp add: desc_deco_def wall_def space_def newline_def)
    done
qed

lemma dewrap_description_join:
  "segment_shape m cs \<Longrightarrow>
   dewrap_description m (newline @ join_spec (map desc_deco cs) @ newline) = Some (concat cs)"
  using dewrap_description_lines_join [of m cs]
  by (simp add: dewrap_description_def newline_def)

lemma concat_segments: "concat (segments m t) = t"
  by (simp add: segments_def concat_chunks)

lemma segment_shape_segments:
  assumes "1 \<le> m"
  shows "segment_shape m (segments m t)"
proof (cases "m < length t")
  case False
  then show ?thesis by (simp add: segments_def segment_shape_def)
next
  case True
  have full: "\<forall>c \<in> set (full_chunks m t 0 (length t div m)). length c = m"
  proof
    fix c
    assume "c \<in> set (full_chunks m t 0 (length t div m))"
    then obtain j where j: "j < length t div m" and c: "c = take m (drop (m * j) t)"
      by (auto simp: full_chunks_def)
    have "m * Suc j \<le> m * (length t div m)" using j by (intro mult_le_mono2) simp
    also have "\<dots> \<le> length t" by simp
    finally have "m * j + m \<le> length t" by simp
    then show "length c = m" using c by simp
  qed
  have "length t - m * (length t div m) = length t mod m"
    by (simp add: minus_mult_div_eq_mod)
  then have rest: "length (drop (m * (length t div m)) t) \<le> m"
    using assms mod_less_divisor [of m "length t"] by simp
  have "segment_shape m (chunks m t)"
    unfolding segment_shape_def chunks_def butlast_snoc last_snoc using full rest by blast
  then show ?thesis using True by (simp add: segments_def)
qed

lemma title_text_eq:
  assumes "1 \<le> maxw"
  shows "title_text maxw t = join_spec (map title_deco (segments (nat maxw) t))"
proof (cases "maxw < int (length t)")
  case True
  then have w: "wrap_lines title_deco maxw t = map title_deco (chunks (nat maxw) t)"
    using assms by (intro wrap_lines_eq) auto
  have ne: "map title_deco (chunks (nat maxw) t) \<noteq> []" by (simp add: chunks_def)
  have n: "nat maxw < length t" using True assms by linarith
  have "title_text maxw t = join_lines (wrap_lines title_deco maxw t)"
    using True by (simp add: title_text_def Let_def)
  also have "\<dots> = join_spec (map title_deco (chunks (nat maxw) t))"
    by (simp only: w join_lines_eq [OF ne])
  also have "\<dots> = join_spec (map title_deco (segments (nat maxw) t))"
    by (simp only: segments_def n if_True)
  finally show ?thesis .
next
  case False
  then show ?thesis using assms
    by (auto simp: title_text_def segments_def title_deco_def Let_def)
qed

lemma description_text_eq:
  assumes "1 \<le> maxw"
  shows "description_text maxw t
         = newline @ join_spec (map desc_deco (segments (nat maxw) t)) @ newline"
proof (cases "maxw < int (length t)")
  case True
  then have w: "wrap_lines desc_deco maxw t = map desc_deco (chunks (nat maxw) t)"
    using assms by (intro wrap_lines_eq) auto
  have ne: "map desc_deco (chunks (nat maxw) t) \<noteq> []" by (simp add: chunks_def)
  have n: "nat maxw < length t" using True assms by linarith
  have "description_text maxw t = newline @ join_lines (wrap_lines desc_deco maxw t) @ newline"
    using True by (simp add: description_text_def Let_def)
  also have "\<dots> = newline @ join_spec (map desc_deco (chunks (nat maxw) t)) @ newline"
    by (simp only: w join_lines_eq [OF ne])
  also have "\<dots> = newline @ join_spec (map desc_deco (segments (nat maxw) t)) @ newline"
    by (simp only: segments_def n if_True)
  finally show ?thesis .
next
  case False
  then show ?thesis using assms
    by (auto simp: description_text_def segments_def desc_deco_def Let_def)
qed

lemma title_roundtrip:
  "1 \<le> maxw \<Longrightarrow> dewrap_title (nat maxw) (title_text maxw t) = Some t"
  using dewrap_title_join [OF segment_shape_segments [of "nat maxw" t]]
  by (simp add: title_text_eq concat_segments)

lemma description_roundtrip:
  "1 \<le> maxw \<Longrightarrow> dewrap_description (nat maxw) (description_text maxw t) = Some t"
  using dewrap_description_join [OF segment_shape_segments [of "nat maxw" t]]
  by (simp add: description_text_eq concat_segments)

lemma length_wrap_lines:
  assumes "1 \<le> maxw" "maxw \<le> int (length t)"
  shows "length (wrap_lines deco maxw t) = length t div nat maxw + 1"
  by (simp add: wrap_lines_eq [OF assms] chunks_def full_chunks_def)

lemma last_chunk_length: "length (last (chunks m t)) = length t mod m"
  by (simp add: chunks_def minus_mult_div_eq_mod)

section \<open>The methods\<close>

lemma embed_setup_empty: "embed_setup u getTime empty_data skip = Inr unset_embed"
  by (simp add: embed_setup_def empty_data_def unset_embed_def)

lemma sizeEmbed_undefined: "sizeEmbed JUndefined this = (ReturnsUndefined, this)"
  by (simp add: sizeEmbed_def bool_strict_eq_string_def)

lemma line_loop_eq:
  "line_loop fixmath i acc = acc @ replicate (nat (fixmath - i)) 0x2500"
proof (induction "nat (fixmath - i)" arbitrary: i acc)
  case 0
  then show ?case by (subst line_loop.simps) simp
next
  case (Suc n)
  then have lt: "i < fixmath" by simp
  have n: "nat (fixmath - i) = Suc (nat (fixmath - (i + 1)))" using lt by simp
  have "line_loop fixmath (i + 1) (acc @ dash)
        = (acc @ dash) @ replicate (nat (fixmath - (i + 1))) 0x2500"
    using Suc.hyps(2) lt by (intro Suc.hyps(1)) simp
  then show ?case using lt
    by (subst line_loop.simps) (simp add: n dash_def)
qed

lemma sized5: "snd (sizeEmbed (JNum 5) unset_embed)
     = unset_embed\<lparr>px := PxObj \<lparr>char = Some 5, line = Some [0x2500]\<rparr>\<rparr>"
  by (simp add: sizeEmbed_def bool_strict_eq_string_def Let_def line_loop.simps [of 1] dash_def)

lemma exec_keeps_number_px:
  "px this = PxNum n \<Longrightarrow> \<not> resizes c \<Longrightarrow> px (snd (exec u c this)) = PxNum n"
  by (cases c)
    (auto simp: sizeEmbed_def bool_strict_eq_string_def setTitle_def setDescription_def
      setFooter_def addField_def addFields_def setTimestamp_def Let_def
      split: jsval.splits if_splits sum.splits)

lemma run_keeps_number_px:
  "px this = PxNum n \<Longrightarrow> \<forall>c \<in> set cs. \<not> resizes c \<Longrightarrow> px (run u cs this) = PxNum n"
  by (induction cs arbitrary: this) (simp_all add: exec_keeps_number_px)

section \<open>The claims\<close>

text \<open>
  C1. Wrapping loses nothing: for every string and every width in effect from 3 to 46,
  \<open>setTitle\<close> succeeds, and removing the decoration from its output gives the string back;
  \<open>setDescription\<close> does the same for every string that is not empty (on the empty string
  it throws and stores nothing). The decoration that is removed is the one the code writes:
  the wall is followed by the figure space U+2007.
\<close>

theorem wrapping_roundtrip:
  assumes "3 \<le> effective_max (px this)" and "effective_max (px this) \<le> 46"
  shows "fst (setTitle (JStr s) this) = ReturnsThis
       \<and> Option.bind (title (snd (setTitle (JStr s) this)))
             (dewrap_title (nat (effective_max (px this)))) = Some s
       \<and> (s \<noteq> [] \<longrightarrow>
             fst (setDescription (JStr s) this) = ReturnsThis
           \<and> Option.bind (description (snd (setDescription (JStr s) this)))
                 (dewrap_description (nat (effective_max (px this)))) = Some s)"
proof -
  have m: "1 \<le> effective_max (px this)" using assms(1) by simp
  show ?thesis
    by (simp add: setTitle_def setDescription_def sizeEmbed_undefined Let_def
        title_roundtrip [OF m] description_roundtrip [OF m])
qed

theorem wrapping_roundtrip_witness:
  "effective_max (px (snd (sizeEmbed (JNum 5) unset_embed))) = 5
   \<and> title (snd (setTitle (JStr (ascii ''Hello World!'')) (snd (sizeEmbed (JNum 5) unset_embed))))
       = Some ([0x2502, 0x2007, 0x20, 0x2A] @ ascii ''Hello'' @ [0x2A, 0x20, 0x0A]
               @ [0x2502, 0x2007, 0x20, 0x2A] @ ascii '' Worl'' @ [0x2A, 0x20, 0x0A]
               @ [0x2502, 0x2007, 0x20, 0x2A] @ ascii ''d!'' @ [0x2A, 0x20])
   \<and> dewrap_title 5
         ([0x2502, 0x2007, 0x20, 0x2A] @ ascii ''Hello'' @ [0x2A, 0x20, 0x0A]
          @ [0x2502, 0x2007, 0x20, 0x2A] @ ascii '' Worl'' @ [0x2A, 0x20, 0x0A]
          @ [0x2502, 0x2007, 0x20, 0x2A] @ ascii ''d!'' @ [0x2A, 0x20])
       = Some (ascii ''Hello World!'')
   \<and> description (snd (setDescription (JStr (ascii ''Hello World!''))
                          (snd (sizeEmbed (JNum 5) unset_embed))))
       = Some ([0x0A, 0x2502, 0x2007] @ ascii ''Hello'' @ [0x0A, 0x2502, 0x2007] @ ascii '' Worl''
               @ [0x0A, 0x2502, 0x2007] @ ascii ''d!'' @ [0x0A])
   \<and> dewrap_description 5
         ([0x0A, 0x2502, 0x2007] @ ascii ''Hello'' @ [0x0A, 0x2502, 0x2007] @ ascii '' Worl''
          @ [0x0A, 0x2502, 0x2007] @ ascii ''d!'' @ [0x0A])
       = Some (ascii ''Hello World!'')"
proof -
  have w: "effective_max (px (snd (sizeEmbed (JNum 5) unset_embed))) = 5"
    by (simp add: sized5 effective_max_def)
  have h1: "3 \<le> effective_max (px (snd (sizeEmbed (JNum 5) unset_embed)))"
    and h2: "effective_max (px (snd (sizeEmbed (JNum 5) unset_embed))) \<le> 46"
    by (simp_all add: w)
  have ne: "ascii ''Hello World!'' \<noteq> []" by (simp add: ascii_def)
  have t: "title (snd (setTitle (JStr (ascii ''Hello World!''))
                         (snd (sizeEmbed (JNum 5) unset_embed))))
       = Some ([0x2502, 0x2007, 0x20, 0x2A] @ ascii ''Hello'' @ [0x2A, 0x20, 0x0A]
               @ [0x2502, 0x2007, 0x20, 0x2A] @ ascii '' Worl'' @ [0x2A, 0x20, 0x0A]
               @ [0x2502, 0x2007, 0x20, 0x2A] @ ascii ''d!'' @ [0x2A, 0x20])"
    by code_simp
  have d: "description (snd (setDescription (JStr (ascii ''Hello World!''))
                          (snd (sizeEmbed (JNum 5) unset_embed))))
       = Some ([0x0A, 0x2502, 0x2007] @ ascii ''Hello'' @ [0x0A, 0x2502, 0x2007] @ ascii '' Worl''
               @ [0x0A, 0x2502, 0x2007] @ ascii ''d!'' @ [0x0A])"
    by code_simp
  have r: "Option.bind (title (snd (setTitle (JStr (ascii ''Hello World!''))
                                      (snd (sizeEmbed (JNum 5) unset_embed)))))
             (dewrap_title 5) = Some (ascii ''Hello World!'')"
    and r': "Option.bind (description (snd (setDescription (JStr (ascii ''Hello World!''))
                                            (snd (sizeEmbed (JNum 5) unset_embed)))))
             (dewrap_description 5) = Some (ascii ''Hello World!'')"
    using wrapping_roundtrip [OF h1 h2, of "ascii ''Hello World!''"] ne by (simp_all add: w)
  show ?thesis
    using r r' by (simp only: w t d Option.bind.simps)
qed

text \<open>
  C2. The claim gives the last chunk between 1 and the width characters. At the width 5 the
  text \<open>HelloWorld\<close> is cut into \<open>Hello\<close>, \<open>World\<close> and a last chunk that is empty: the
  boundary 10 is pushed twice, once as a multiple of the width and once as the length.
\<close>

theorem wrap_lines_multiple_of_width:
  "wrap_lines title_deco 5 (ascii ''HelloWorld'')
     = [title_deco (ascii ''Hello''), title_deco (ascii ''World''), title_deco []]
   \<and> wrap_lines desc_deco 5 (ascii ''HelloWorld'')
     = [desc_deco (ascii ''Hello''), desc_deco (ascii ''World''), desc_deco []]"
  by code_simp

text \<open>
  C3. The claim counts two lines for \<open>setTitle("HelloWorld")\<close> at the width 5. The method
  stores three: the two full lines and a line that holds the emphasis markers only. The
  third line is the slip of C2. Apart from it, a stored line is the wall U+2502, the figure
  space U+2007, then \<open>" *"\<close>, the chunk and \<open>"* "\<close>: the code unit after the wall is the one the
  source chooses, where the lines quoted in the claim have U+0020. The stored text is given
  by its code units.
\<close>

theorem setTitle_HelloWorld_width_5:
  "title (snd (setTitle (JStr (ascii ''HelloWorld'')) (snd (sizeEmbed (JNum 5) unset_embed))))
     = Some ([0x2502, 0x2007] @ ascii '' *Hello* '' @ [0x0A]
             @ [0x2502, 0x2007] @ ascii '' *World* '' @ [0x0A]
             @ [0x2502, 0x2007] @ ascii '' ** '')
   \<and> length (wrap_lines title_deco
                (effective_max (px (snd (sizeEmbed (JNum 5) unset_embed))))
                (ascii ''HelloWorld'')) = 3"
  by code_simp

text \<open>
  C4. The claim has \<open>sizeEmbed()\<close> reset \<open>px\<close> to the record of two nulls. The test that guards
  the reset is never true, so the call returns undefined and leaves \<open>px\<close> as it was: the
  record of \<open>sizeEmbed(5)\<close> stays, and on a new embed \<open>px\<close> stays null.
\<close>

theorem sizeEmbed_no_argument:
  "sizeEmbed JUndefined (snd (sizeEmbed (JNum 5) unset_embed))
     = (ReturnsUndefined, unset_embed\<lparr>px := PxObj \<lparr>char = Some 5, line = Some [0x2500]\<rparr>\<rparr>)
   \<and> sizeEmbed JUndefined unset_embed = (ReturnsUndefined, unset_embed)
   \<and> px unset_embed \<noteq> PxObj \<lparr>char = None, line = None\<rparr>"
  by (simp add: sizeEmbed_def bool_strict_eq_string_def unset_embed_def Let_def
      line_loop.simps [of 1] dash_def)

text \<open>
  C5. \<open>sizeEmbed(px)\<close> with an integer from 3 to 46 returns the embed and sets \<open>px\<close> to the
  record of the number and of a rule of \<open>|px - 4|\<close> dashes; with an integer that is at most 2
  or at least 47 it throws a RangeError and sets nothing.
\<close>

theorem sizeEmbed_range:
  "(3 \<le> n \<and> n \<le> 46 \<longrightarrow>
      sizeEmbed (JNum n) this
        = (ReturnsThis,
           this\<lparr>px := PxObj \<lparr>char = Some n, line = Some (replicate (nat \<bar>n - 4\<bar>) 0x2500)\<rparr>\<rparr>))
   \<and> (n \<le> 2 \<or> 47 \<le> n \<longrightarrow> sizeEmbed (JNum n) this = (Throws RangeError, this))"
  by (simp add: sizeEmbed_def bool_strict_eq_string_def line_loop_eq Let_def)

theorem sizeEmbed_range_witness:
  "sizeEmbed (JNum 3) unset_embed
     = (ReturnsThis, unset_embed\<lparr>px := PxObj \<lparr>char = Some 3, line = Some [0x2500]\<rparr>\<rparr>)
   \<and> sizeEmbed (JNum 46) unset_embed
     = (ReturnsThis, unset_embed\<lparr>px := PxObj \<lparr>char = Some 46, line = Some (replicate 42 0x2500)\<rparr>\<rparr>)
   \<and> sizeEmbed (JNum 2) unset_embed = (Throws RangeError, unset_embed)
   \<and> sizeEmbed (JNum 47) unset_embed = (Throws RangeError, unset_embed)"
  using sizeEmbed_range [of 3 unset_embed] sizeEmbed_range [of 46 unset_embed]
    sizeEmbed_range [of 2 unset_embed] sizeEmbed_range [of 47 unset_embed]
  by simp

text \<open>
  C6, as the code has it. \<open>setDescription\<close> on a string not longer than the width in effect
  throws a TypeError when the string is empty, and otherwise stores one line between two
  newlines: the code units U+000A, U+2502 (the wall), U+2007 (the figure space), the string
  unmodified, and U+000A.
\<close>

theorem setDescription_short:
  assumes "int (length s) \<le> effective_max (px this)"
  shows "(s = [] \<longrightarrow> setDescription (JStr s) this = (Throws TypeError, this))
       \<and> (s \<noteq> [] \<longrightarrow> setDescription (JStr s) this
             = (ReturnsThis, this\<lparr>description := Some ([0x0A, 0x2502, 0x2007] @ s @ [0x0A])\<rparr>))"
  using assms
  by (auto simp: setDescription_def sizeEmbed_undefined description_text_def Let_def
      newline_def wall_def space_def)

theorem setDescription_short_witness:
  "int (length [0x48, 0x69 :: 16 word]) \<le> effective_max (px unset_embed)
   \<and> setDescription (JStr [0x48, 0x69]) unset_embed
       = (ReturnsThis,
          unset_embed\<lparr>description := Some [0x0A, 0x2502, 0x2007, 0x48, 0x69, 0x0A]\<rparr>)
   \<and> setDescription (JStr []) unset_embed = (Throws TypeError, unset_embed)"
proof -
  have h: "int (length [0x48, 0x69 :: 16 word]) \<le> effective_max (px unset_embed)"
    and h0: "int (length ([] :: ustring)) \<le> effective_max (px unset_embed)"
    by (simp_all add: effective_max_def unset_embed_def)
  show ?thesis
    using setDescription_short [OF h] setDescription_short [OF h0] h by simp
qed

text \<open>
  C6, as the claim states it, fails. The claim's value has the ordinary space U+0020 after
  the wall; for the string \<open>Hi\<close>, which fits the default width, \<open>setDescription\<close> succeeds and
  stores U+2007 there.
\<close>

theorem setDescription_space_counterexample:
  "int (length [0x48, 0x69 :: 16 word]) \<le> effective_max (px unset_embed)
   \<and> fst (setDescription (JStr [0x48, 0x69]) unset_embed) = ReturnsThis
   \<and> description (snd (setDescription (JStr [0x48, 0x69]) unset_embed))
       = Some [0x0A, 0x2502, 0x2007, 0x48, 0x69, 0x0A]
   \<and> description (snd (setDescription (JStr [0x48, 0x69]) unset_embed))
       \<noteq> Some [0x0A, 0x2502, 0x20, 0x48, 0x69, 0x0A]"
  by code_simp

text \<open>
  C7, as the code has it. \<open>setFooter\<close> throws a RangeError on a string longer than 20
  characters; on a string of at most 20 characters it stores the single line of the code
  units U+2502 (the wall), U+2007 (the figure space), three backticks U+0060, the string,
  and three backticks again.
\<close>

theorem setFooter_limit:
  "(20 < length f \<longrightarrow> setFooter (JStr f) this = (Throws RangeError, this))
   \<and> (length f \<le> 20 \<longrightarrow> setFooter (JStr f) this
         = (ReturnsThis,
            this\<lparr>footer := Some ([0x2502, 0x2007, 0x60, 0x60, 0x60] @ f @ [0x60, 0x60, 0x60])\<rparr>))"
  by (simp add: setFooter_def Let_def wall_def space_def fence_def)

theorem setFooter_limit_witness:
  "setFooter (JStr (replicate 21 0x78)) unset_embed = (Throws RangeError, unset_embed)
   \<and> setFooter (JStr (replicate 20 0x78)) unset_embed
       = (ReturnsThis,
          unset_embed\<lparr>footer := Some ([0x2502, 0x2007, 0x60, 0x60, 0x60] @ replicate 20 0x78
                                       @ [0x60, 0x60, 0x60])\<rparr>)"
  using setFooter_limit [of "replicate 21 0x78" unset_embed]
    setFooter_limit [of "replicate 20 0x78" unset_embed]
  by simp

text \<open>
  C7, as the claim states it, fails. The claim's line has the ordinary space U+0020 after
  the wall; for the footer \<open>x\<close> the method succeeds and stores U+2007 there.
\<close>

theorem setFooter_space_counterexample:
  "fst (setFooter (JStr [0x78]) unset_embed) = ReturnsThis
   \<and> footer (snd (setFooter (JStr [0x78]) unset_embed))
       = Some [0x2502, 0x2007, 0x60, 0x60, 0x60, 0x78, 0x60, 0x60, 0x60]
   \<and> footer (snd (setFooter (JStr [0x78]) unset_embed))
       \<noteq> Some [0x2502, 0x20, 0x60, 0x60, 0x60, 0x78, 0x60, 0x60, 0x60]"
  by code_simp

text \<open>
  C8. A method that throws leaves the embed as it was before the call, whichever of
  \<open>sizeEmbed\<close>, \<open>setTitle\<close>, \<open>setDescription\<close>, \<open>setFooter\<close>, \<open>addField\<close> and \<open>addFields\<close> it
  is. (\<open>setTimestamp\<close> never throws.)
\<close>

theorem setter_throw_keeps_state:
  "is_throw (fst (exec u c this)) \<Longrightarrow> snd (exec u c this) = this"
  by (cases c)
    (auto simp: sizeEmbed_def bool_strict_eq_string_def setTitle_def setDescription_def
      setFooter_def addField_def addFields_def setTimestamp_def Let_def
      split: jsval.splits if_splits sum.splits)

theorem setter_throw_keeps_state_witness:
  "is_throw (fst (exec sample_util (CallSizeEmbed (JNum 50)) (snd (sizeEmbed (JNum 5) unset_embed))))
   \<and> snd (exec sample_util (CallSizeEmbed (JNum 50)) (snd (sizeEmbed (JNum 5) unset_embed)))
       = snd (sizeEmbed (JNum 5) unset_embed)
   \<and> is_throw (fst (exec sample_util (CallSetDescription (JStr []))
                     (snd (sizeEmbed (JNum 5) unset_embed))))
   \<and> snd (exec sample_util (CallSetDescription (JStr [])) (snd (sizeEmbed (JNum 5) unset_embed)))
       = snd (sizeEmbed (JNum 5) unset_embed)
   \<and> is_throw (fst (exec sample_util (CallSetTitle JNull) unset_embed))
   \<and> snd (exec sample_util (CallSetTitle JNull) unset_embed) = unset_embed
   \<and> is_throw (fst (exec sample_util (CallSetFooter (JStr (replicate 21 0x78))) unset_embed))
   \<and> snd (exec sample_util (CallSetFooter (JStr (replicate 21 0x78))) unset_embed) = unset_embed
   \<and> is_throw (fst (exec sample_util (CallAddField (JStr (ascii ''A'')) (JStr [])) unset_embed))
   \<and> snd (exec sample_util (CallAddField (JStr (ascii ''A'')) (JStr [])) unset_embed)
       = unset_embed"
proof -
  have t1: "is_throw (fst (exec sample_util (CallSizeEmbed (JNum 50))
                            (snd (sizeEmbed (JNum 5) unset_embed))))"
    by (simp add: sizeEmbed_def bool_strict_eq_string_def)
  have t2: "is_throw (fst (exec sample_util (CallSetDescription (JStr []))
                            (snd (sizeEmbed (JNum 5) unset_embed))))"
    by (simp add: setDescription_def sizeEmbed_undefined)
  have t3: "is_throw (fst (exec sample_util (CallSetTitle JNull) unset_embed))"
    by (simp add: setTitle_def sizeEmbed_undefined)
  have t4: "is_throw (fst (exec sample_util (CallSetFooter (JStr (replicate 21 0x78)))
                            unset_embed))"
    by (simp add: setFooter_def)
  have t5: "is_throw (fst (exec sample_util (CallAddField (JStr (ascii ''A'')) (JStr []))
                            unset_embed))"
    by (simp add: addField_def addFields_def normalizeFields_def normalizeField_def
        sample_util_def numeral_2_eq_2)
  show ?thesis
    using t1 t2 t3 t4 t5
      setter_throw_keeps_state [OF t1] setter_throw_keeps_state [OF t2]
      setter_throw_keeps_state [OF t3] setter_throw_keeps_state [OF t4]
      setter_throw_keeps_state [OF t5]
    by simp
qed

text \<open>
  C9, as the code has it. In the object that \<open>toJSON\<close> returns, the timestamp is a date built
  from the stored timestamp when that value is truthy, and the stored value itself when it
  is falsy (null, 0, \<open>NaN\<close> or the empty string); the other keys are passed through.
\<close>

theorem toJSON_keys:
  "json_timestamp (toJSON this)
     = (if truthy (timestamp this) then DateOf (timestamp this) else Plain (timestamp this))
   \<and> json_px (toJSON this) = px this \<and> json_title (toJSON this) = title this
   \<and> json_description (toJSON this) = description this
   \<and> json_fields (toJSON this) = embed_fields this \<and> json_footer (toJSON this) = footer this"
  by (simp add: toJSON_def)

theorem toJSON_keys_witness:
  "json_timestamp (toJSON (unset_embed\<lparr>timestamp := TsNum (Fin 1762128000000)\<rparr>))
     = DateOf (TsNum (Fin 1762128000000))
   \<and> json_timestamp (toJSON unset_embed) = Plain TsNull
   \<and> json_footer (toJSON unset_embed) = None"
  using toJSON_keys [of "unset_embed\<lparr>timestamp := TsNum (Fin 1762128000000)\<rparr>"]
    toJSON_keys [of unset_embed]
  by (simp add: unset_embed_def)

text \<open>
  C9, as the claim states it, fails: after \<open>setTimestamp(0)\<close> on a new embed the stored
  timestamp is the empty string, which is falsy, and \<open>toJSON\<close> gives the empty string, not
  null.
\<close>

theorem toJSON_falsy_counterexample:
  "\<not> truthy (timestamp (snd (setTimestamp \<lparr>getMonth = 10, getDate = 3, getFullYear = 2026\<rparr>
                                 (JNum 0) unset_embed)))
   \<and> json_timestamp (toJSON (snd (setTimestamp \<lparr>getMonth = 10, getDate = 3, getFullYear = 2026\<rparr>
                                      (JNum 0) unset_embed)))
       = Plain (TsStr [])
   \<and> Plain (TsStr []) \<noteq> Plain TsNull"
  by (simp add: setTimestamp_def toJSON_def unset_embed_def)

text \<open>
  C10. When the data given to the constructor has a number under \<open>px\<close>, and no call of
  \<open>sizeEmbed\<close> that succeeds is among the calls made since, the width in effect is the default
  28: \<open>setTitle\<close> and \<open>setDescription\<close> store the text wrapped at 28.
\<close>

theorem constructor_number_px_ignored:
  assumes "data_px data = Some (PxNum n)"
    and "embed_setup u getTime data skipValidation = Inr this0"
    and "\<forall>c \<in> set cs. \<not> resizes c"
    and "this = run u cs this0"
  shows "px this = PxNum n \<and> effective_max (px this) = 28
       \<and> setTitle (JStr t) this = (ReturnsThis, this\<lparr>title := Some (title_text 28 t)\<rparr>)
       \<and> (d \<noteq> [] \<longrightarrow> setDescription (JStr d) this
             = (ReturnsThis, this\<lparr>description := Some (description_text 28 d)\<rparr>))"
proof -
  have "px this0 = PxNum n"
    using assms(1,2) by (auto simp: embed_setup_def Let_def split: sum.splits)
  then have "px this = PxNum n"
    using assms(3,4) by (simp add: run_keeps_number_px)
  then show ?thesis
    by (auto simp: setTitle_def setDescription_def sizeEmbed_undefined effective_max_def Let_def)
qed

theorem constructor_number_px_ignored_witness:
  "embed_setup sample_util (\<lambda>v. NaN) (empty_data\<lparr>data_px := Some (PxNum 5)\<rparr>) False
     = Inr (unset_embed\<lparr>px := PxNum 5\<rparr>)
   \<and> \<not> resizes (CallSetFooter (JStr (ascii ''hi''))) \<and> \<not> resizes (CallSizeEmbed (JNum 50))
   \<and> \<not> resizes (CallSizeEmbed JUndefined)
   \<and> setTitle (JStr (ascii ''The quick brown fox jumps over the lazy dog''))
        (run sample_util
           [CallSetFooter (JStr (ascii ''hi'')), CallSizeEmbed (JNum 50), CallSizeEmbed JUndefined]
           (unset_embed\<lparr>px := PxNum 5\<rparr>))
       = (ReturnsThis,
          (run sample_util
             [CallSetFooter (JStr (ascii ''hi'')), CallSizeEmbed (JNum 50),
              CallSizeEmbed JUndefined]
             (unset_embed\<lparr>px := PxNum 5\<rparr>))
          \<lparr>title := Some ([0x2502, 0x2007, 0x20, 0x2A] @ ascii ''The quick brown fox jumps ov''
                           @ [0x2A, 0x20, 0x0A]
                           @ [0x2502, 0x2007, 0x20, 0x2A] @ ascii ''er the lazy dog''
                           @ [0x2A, 0x20])\<rparr>)
   \<and> setDescription (JStr (ascii ''The quick brown fox jumps over the lazy dog''))
        (run sample_util
           [CallSetFooter (JStr (ascii ''hi'')), CallSizeEmbed (JNum 50), CallSizeEmbed JUndefined]
           (unset_embed\<lparr>px := PxNum 5\<rparr>))
       = (ReturnsThis,
          (run sample_util
             [CallSetFooter (JStr (ascii ''hi'')), CallSizeEmbed (JNum 50),
              CallSizeEmbed JUndefined]
             (unset_embed\<lparr>px := PxNum 5\<rparr>))
          \<lparr>description := Some ([0x0A, 0x2502, 0x2007] @ ascii ''The quick brown fox jumps ov''
                                 @ [0x0A, 0x2502, 0x2007] @ ascii ''er the lazy dog''
                                 @ [0x0A])\<rparr>)"
proof -
  have h1: "data_px (empty_data\<lparr>data_px := Some (PxNum 5)\<rparr>) = Some (PxNum 5)"
    by simp
  have h2: "embed_setup sample_util (\<lambda>v. NaN) (empty_data\<lparr>data_px := Some (PxNum 5)\<rparr>) False
              = Inr (unset_embed\<lparr>px := PxNum 5\<rparr>)"
    by (simp add: embed_setup_def empty_data_def unset_embed_def)
  have h3: "\<forall>c \<in> set [CallSetFooter (JStr (ascii ''hi'')), CallSizeEmbed (JNum 50),
                         CallSizeEmbed JUndefined]. \<not> resizes c"
    by simp
  have ne: "ascii ''The quick brown fox jumps over the lazy dog'' \<noteq> []"
    by (simp add: ascii_def)
  have tt: "title_text 28 (ascii ''The quick brown fox jumps over the lazy dog'')
              = [0x2502, 0x2007, 0x20, 0x2A] @ ascii ''The quick brown fox jumps ov''
                @ [0x2A, 0x20, 0x0A]
                @ [0x2502, 0x2007, 0x20, 0x2A] @ ascii ''er the lazy dog'' @ [0x2A, 0x20]"
    by code_simp
  have dd: "description_text 28 (ascii ''The quick brown fox jumps over the lazy dog'')
              = [0x0A, 0x2502, 0x2007] @ ascii ''The quick brown fox jumps ov''
                @ [0x0A, 0x2502, 0x2007] @ ascii ''er the lazy dog'' @ [0x0A]"
    by code_simp
  show ?thesis
    using constructor_number_px_ignored [OF h1 h2 h3 refl,
        of "ascii ''The quick brown fox jumps over the lazy dog''"
           "ascii ''The quick brown fox jumps over the lazy dog''"] h2 ne
    by (simp add: tt dd)
qed

end
